theory Spec2Isabelle
  imports Complex_Main "HOL-Library.Signed_Division" "HOL-Library.Multiset"
begin

section \<open>Best K-by-K submatrix search (matrix_solver.c, matrix_solver_1.c)\<close>

text \<open>
  The program searches an N-by-M matrix of C \<open>int\<close>s for the K-by-K window with the
  largest sum of \<open>log |v|\<close> over its odd entries. \<open>matrix_solver_1.c\<close> runs one OpenMP
  search over the whole matrix; \<open>matrix_solver.c\<close> splits the rows between two MPI
  ranks, runs the same search on each block and keeps the better of the two results.

  Modelling decisions:
  \<^item> C \<open>int\<close> is \<open>int\<close>. On the inputs \<open>validate_parameters\<close> accepts (dimensions at
    most 1000) no index computation leaves the 32-bit range. C's \<open>/\<close> and \<open>%\<close>
    truncate towards zero: they are \<open>sdiv\<close> and \<open>smod\<close>.
  \<^item> C \<open>double\<close> is the type \<open>double\<close> below: minus infinity or a real number, with
    \<open>log\<close> the natural logarithm \<open>ln\<close>. Rounding is not modelled. The only doubles
    the program builds are \<open>-INFINITY\<close> and finite sums of logarithms of positive
    integers, so no NaN and no other infinity arises.
  \<^item> \<open>int **matrix\<close> is a list of rows, \<open>matrix[i][j]\<close> is \<open>m ! i ! j\<close>. An access
    outside the allocated rows is undefined in C; the theorems below carry the
    hypotheses under which every access is in range.
\<close>

subsection \<open>Doubles\<close>

datatype double = MinusInfinity | Finite real

instantiation double :: linorder
begin

fun less_eq_double :: "double \<Rightarrow> double \<Rightarrow> bool" where
  "less_eq_double MinusInfinity y = True"
| "less_eq_double (Finite x) MinusInfinity = False"
| "less_eq_double (Finite x) (Finite y) = (x \<le> y)"

definition less_double :: "double \<Rightarrow> double \<Rightarrow> bool" where
  "less_double a b = (a \<le> b \<and> \<not> b \<le> a)"

instance
proof
  fix x y z :: double
  show "(x < y) = (x \<le> y \<and> \<not> y \<le> x)"
    by (simp add: less_double_def)
  show "x \<le> x"
    by (cases x) simp_all
  show "x \<le> y \<Longrightarrow> y \<le> z \<Longrightarrow> x \<le> z"
    by (cases x; cases y; cases z) simp_all
  show "x \<le> y \<Longrightarrow> y \<le> x \<Longrightarrow> x = y"
    by (cases x; cases y) simp_all
  show "x \<le> y \<or> y \<le> x"
    by (cases x; cases y) auto
qed

end

subsection \<open>The result record and the matrix\<close>

record SubmatrixResult =
  row :: int
  col :: int
  max_log_product :: double

type_synonym matrix = "int list list"

definition MAX_MATRIX_SIZE :: int where "MAX_MATRIX_SIZE = 1000"
definition MIN_VALUE :: int where "MIN_VALUE = - 100"
definition MAX_VALUE :: int where "MAX_VALUE = 100"

text \<open>\<open>matrix[i][j]\<close> for C \<open>int\<close> indices.\<close>

definition cell :: "matrix \<Rightarrow> int \<Rightarrow> int \<Rightarrow> int" where
  "cell m i j = m ! nat i ! nat j"

text \<open>An allocation of \<open>N\<close> rows of \<open>M\<close> ints each (\<open>allocate_matrix\<close>).\<close>

definition wf_matrix :: "matrix \<Rightarrow> int \<Rightarrow> int \<Rightarrow> bool" where
  "wf_matrix m N M = (int (length m) = N \<and> list_all (\<lambda>r. int (length r) = M) m)"

subsection \<open>Scoring a window\<close>

text \<open>\<open>is_odd\<close>: \<open>abs(num) % 2 == 1\<close>, a C truth value.\<close>

definition is_odd :: "int \<Rightarrow> int" where
  "is_odd num = (if \<bar>num\<bar> smod 2 = 1 then 1 else 0)"

text \<open>
  The body of the inner loop of \<open>calculate_log_product_submatrix\<close> on the pair
  \<open>(log_sum, odd_count)\<close>, for the cell value \<open>v\<close>.
\<close>

definition add_cell :: "real \<times> int \<Rightarrow> int \<Rightarrow> real \<times> int" where
  "add_cell acc v =
     (if is_odd v \<noteq> 0 \<and> v \<noteq> 0
      then (fst acc + ln (real_of_int \<bar>v\<bar>), snd acc + 1)
      else acc)"

text \<open>
  The cells the two nested loops visit, in the order they visit them:
  \<open>i\<close> from \<open>start_row\<close> while \<open>i < start_row + K\<close>, inside it \<open>j\<close> from
  \<open>start_col\<close> while \<open>j < start_col + K\<close>.
\<close>

definition window_cells :: "matrix \<Rightarrow> int \<Rightarrow> int \<Rightarrow> int \<Rightarrow> int list" where
  "window_cells m start_row start_col K =
     concat (map (\<lambda>i. map (\<lambda>j. cell m i j) [start_col .. start_col + K - 1])
                 [start_row .. start_row + K - 1])"

definition calculate_log_product_submatrix ::
    "matrix \<Rightarrow> int \<Rightarrow> int \<Rightarrow> int \<Rightarrow> double" where
  "calculate_log_product_submatrix m start_row start_col K =
     (let acc = foldl add_cell (0, 0) (window_cells m start_row start_col K)
      in if snd acc > 0 then Finite (fst acc) else MinusInfinity)"

definition is_valid_submatrix :: "int \<Rightarrow> int \<Rightarrow> int \<Rightarrow> int \<Rightarrow> int \<Rightarrow> bool" where
  "is_valid_submatrix i j K N M = (i + K \<le> N \<and> j + K \<le> M)"

subsection \<open>The OpenMP search\<close>

text \<open>The initialiser \<open>{-1, -1, -INFINITY}\<close> of \<open>best_result\<close> and \<open>local_best\<close>.\<close>

definition sentinel :: SubmatrixResult where
  "sentinel = \<lparr>row = - 1, col = - 1, max_log_product = MinusInfinity\<rparr>"

text \<open>
  The collapsed loop nest \<open>for i = 0; i <= N - K\<close>, \<open>for j = 0; j <= M - K\<close>:
  its iterations in source order.
\<close>

definition iteration_space :: "int \<Rightarrow> int \<Rightarrow> int \<Rightarrow> (int \<times> int) list" where
  "iteration_space N M K = List.product [0 .. N - K] [0 .. M - K]"

text \<open>The body of the loop nest, on one thread's \<open>local_best\<close>.\<close>

definition loop_body ::
    "matrix \<Rightarrow> int \<Rightarrow> int \<Rightarrow> int \<Rightarrow> SubmatrixResult \<Rightarrow> int \<times> int \<Rightarrow> SubmatrixResult" where
  "loop_body m N M K local_best ij =
     (let i = fst ij; j = snd ij in
      if is_valid_submatrix i j K N M then
        (let current_log_product = calculate_log_product_submatrix m i j K in
         if current_log_product > max_log_product local_best
         then local_best\<lparr>row := i, col := j, max_log_product := current_log_product\<rparr>
         else local_best)
      else local_best)"

text \<open>One thread of the team: its private \<open>local_best\<close> after the iterations it was given.\<close>

definition thread_local_best ::
    "matrix \<Rightarrow> int \<Rightarrow> int \<Rightarrow> int \<Rightarrow> (int \<times> int) list \<Rightarrow> SubmatrixResult" where
  "thread_local_best m N M K its = foldl (loop_body m N M K) sentinel its"

text \<open>The critical section, on the shared \<open>best_result\<close>.\<close>

definition critical_update :: "SubmatrixResult \<Rightarrow> SubmatrixResult \<Rightarrow> SubmatrixResult" where
  "critical_update best_result local_best =
     (if max_log_product local_best > max_log_product best_result
      then local_best else best_result)"

text \<open>
  What the OpenMP runtime decides is a parameter of the model. A schedule lists the
  threads of the team in the order in which they enter the critical section, and gives
  for each thread the iterations that \<open>schedule(dynamic)\<close> handed to it, in the order
  the thread ran them. The runtime guarantees a team of at least one thread and that
  every iteration of the collapsed nest is run exactly once.
\<close>

type_synonym schedule = "(int \<times> int) list list"

definition valid_schedule :: "schedule \<Rightarrow> int \<Rightarrow> int \<Rightarrow> int \<Rightarrow> bool" where
  "valid_schedule sched N M K =
     (sched \<noteq> [] \<and> mset (concat sched) = mset (iteration_space N M K))"

definition find_best_submatrix_parallel ::
    "schedule \<Rightarrow> matrix \<Rightarrow> int \<Rightarrow> int \<Rightarrow> int \<Rightarrow> SubmatrixResult" where
  "find_best_submatrix_parallel sched m N M K =
     foldl critical_update sentinel (map (thread_local_best m N M K) sched)"

text \<open>The schedule of a team of one thread, which runs the nest in source order.\<close>

definition sequential :: "int \<Rightarrow> int \<Rightarrow> int \<Rightarrow> schedule" where
  "sequential N M K = [iteration_space N M K]"

subsection \<open>Parameter validation\<close>

definition validate_parameters :: "int \<Rightarrow> int \<Rightarrow> int \<Rightarrow> int" where
  "validate_parameters N M K =
     (if N \<le> 0 \<or> M \<le> 0 \<or> K \<le> 0 then 0
      else if K > N \<or> K > M then 0
      else if N > MAX_MATRIX_SIZE \<or> M > MAX_MATRIX_SIZE then 0
      else 1)"

subsection \<open>The matrix generator\<close>

text \<open>
  \<open>srand\<close> and \<open>rand\<close> belong to the C library and are parameters: \<open>srand seed\<close> is
  the generator state after seeding, \<open>rand g\<close> the next number and the next state. The
  C library promises that the numbers after \<open>srand\<close> depend on the seed only, which
  is why \<open>srand\<close> does not take the state before.

  One entry: \<open>matrix[i][j] = rand() % (MAX_VALUE - MIN_VALUE + 1) + MIN_VALUE\<close>, then
  \<open>if (matrix[i][j] % 2 == 0 && rand() % 3 == 0) matrix[i][j] += 1\<close>. The second
  \<open>rand()\<close> is only called for an even entry.
\<close>

definition draw_entry :: "('g \<Rightarrow> int \<times> 'g) \<Rightarrow> 'g \<Rightarrow> int \<times> 'g" where
  "draw_entry rand g =
     (let (r1, g1) = rand g;
          v = r1 smod (MAX_VALUE - MIN_VALUE + 1) + MIN_VALUE
      in if v smod 2 = 0
         then (let (r2, g2) = rand g1 in if r2 smod 3 = 0 then (v + 1, g2) else (v, g2))
         else (v, g1))"

text \<open>The inner loop writes row \<open>i\<close> in place, the outer loop every row.\<close>

definition set_entry :: "('g \<Rightarrow> int \<times> 'g) \<Rightarrow> int list \<times> 'g \<Rightarrow> nat \<Rightarrow> int list \<times> 'g" where
  "set_entry rand rg j = (let (v, g') = draw_entry rand (snd rg) in ((fst rg)[j := v], g'))"

definition fill_row :: "('g \<Rightarrow> int \<times> 'g) \<Rightarrow> int \<Rightarrow> int list \<times> 'g \<Rightarrow> int list \<times> 'g" where
  "fill_row rand M rg = foldl (set_entry rand) rg [0 ..< nat M]"

definition set_row :: "('g \<Rightarrow> int \<times> 'g) \<Rightarrow> int \<Rightarrow> matrix \<times> 'g \<Rightarrow> nat \<Rightarrow> matrix \<times> 'g" where
  "set_row rand M mg i =
     (let (r, g') = fill_row rand M (fst mg ! i, snd mg) in ((fst mg)[i := r], g'))"

definition fill_matrix :: "('g \<Rightarrow> int \<times> 'g) \<Rightarrow> int \<Rightarrow> int \<Rightarrow> matrix \<times> 'g \<Rightarrow> matrix \<times> 'g" where
  "fill_matrix rand N M mg = foldl (set_row rand M) mg [0 ..< nat N]"

text \<open>
  \<open>generate_random_matrix\<close> of \<open>matrix_solver.c\<close> seeds with 42. It is given the
  allocated matrix \<open>m0\<close>, whose contents \<open>malloc\<close> leaves unspecified, and the state
  \<open>g0\<close> the generator was in before the call, which \<open>srand\<close> replaces. It returns the
  filled matrix and the state the generator is left in.
\<close>

definition generate_random_matrix ::
    "(nat \<Rightarrow> 'g) \<Rightarrow> ('g \<Rightarrow> int \<times> 'g) \<Rightarrow> matrix \<Rightarrow> 'g \<Rightarrow> int \<Rightarrow> int \<Rightarrow> matrix \<times> 'g" where
  "generate_random_matrix srand rand m0 g0 N M = fill_matrix rand N M (m0, srand 42)"

text \<open>\<open>generate_random_matrix\<close> of \<open>matrix_solver_1.c\<close> seeds with \<open>time(NULL)\<close>, here \<open>now\<close>.\<close>

definition generate_random_matrix_1 ::
    "(nat \<Rightarrow> 'g) \<Rightarrow> ('g \<Rightarrow> int \<times> 'g) \<Rightarrow> nat \<Rightarrow> matrix \<Rightarrow> 'g \<Rightarrow> int \<Rightarrow> int \<Rightarrow> matrix \<times> 'g" where
  "generate_random_matrix_1 srand rand now m0 g0 N M = fill_matrix rand N M (m0, srand now)"

text \<open>
  A generator for concrete runs: its state is the list of numbers it will still
  return, and seeding installs the list \<open>script\<close>.
\<close>

fun scripted_rand :: "int list \<Rightarrow> int \<times> int list" where
  "scripted_rand [] = (0, [])"
| "scripted_rand (x # xs) = (x, xs)"

definition scripted_srand :: "int list \<Rightarrow> nat \<Rightarrow> int list" where
  "scripted_srand script seed = script"

subsection \<open>The two MPI ranks (main of matrix\_solver.c)\<close>

text \<open>
  Rank 0 searches rows \<open>0 .. half - 1\<close> of the full matrix, \<open>half = N / 2\<close>. It sends
  rows \<open>half .. N - 1\<close> to rank 1, which stores them as rows \<open>0 .. N - half - 1\<close> of its
  own matrix, searches that, adds \<open>half\<close> to the row of its result and sends it back.
  Rank 0 keeps \<open>local_result\<close> if its score is greater than that of the received
  \<open>other_result\<close>, and \<open>other_result\<close> otherwise. The ranks share no memory, so the
  outcome is a function of the matrix and the two OpenMP schedules.
\<close>

definition rank0_local_result ::
    "schedule \<Rightarrow> matrix \<Rightarrow> int \<Rightarrow> int \<Rightarrow> int \<Rightarrow> SubmatrixResult" where
  "rank0_local_result sched0 m N M K =
     (let half = N sdiv 2 in find_best_submatrix_parallel sched0 m half M K)"

definition sent_rows :: "matrix \<Rightarrow> int \<Rightarrow> int list list" where
  "sent_rows m N = (let half = N sdiv 2 in map (\<lambda>i. m ! nat i) [half .. N - 1])"

definition rank1_local_result ::
    "schedule \<Rightarrow> matrix \<Rightarrow> int \<Rightarrow> int \<Rightarrow> int \<Rightarrow> SubmatrixResult" where
  "rank1_local_result sched1 m N M K =
     (let half = N sdiv 2;
          local_result = find_best_submatrix_parallel sched1 (sent_rows m N) (N - half) M K
      in local_result\<lparr>row := row local_result + half\<rparr>)"

definition select_better :: "SubmatrixResult \<Rightarrow> SubmatrixResult \<Rightarrow> SubmatrixResult" where
  "select_better local_result other_result =
     (if max_log_product local_result > max_log_product other_result
      then local_result else other_result)"

definition coordinated_search ::
    "schedule \<Rightarrow> schedule \<Rightarrow> matrix \<Rightarrow> int \<Rightarrow> int \<Rightarrow> int \<Rightarrow> SubmatrixResult" where
  "coordinated_search sched0 sched1 m N M K =
     select_better (rank0_local_result sched0 m N M K) (rank1_local_result sched1 m N M K)"

subsection \<open>The two programs\<close>

text \<open>
  How a run ends: \<open>Wrong_size\<close> is the \<open>return 1\<close> for a process count other than 2
  (the source's \<open>size\<close>, here \<open>nprocs\<close>); \<open>Rejected\<close> is the exit after
  \<open>validate_parameters\<close> returned 0 (\<open>MPI_Abort\<close> in \<open>matrix_solver.c\<close>, \<open>return 1\<close>
  in \<open>matrix_solver_1.c\<close>); \<open>Searched\<close> is a run that allocated the matrix, generated
  it and searched it, and holds the matrix and the result. The statements are taken in
  the order of the source: the process count is tested first, then the parameters, and
  only then is the matrix allocated. \<open>N\<close>, \<open>M\<close>, \<open>K\<close> are the numbers read by
  \<open>scanf\<close>; allocation is taken to succeed; printing is left out.
\<close>

datatype outcome = Wrong_size | Rejected | Searched matrix SubmatrixResult

definition main ::
    "int \<Rightarrow> (nat \<Rightarrow> 'g) \<Rightarrow> ('g \<Rightarrow> int \<times> 'g) \<Rightarrow> matrix \<Rightarrow> 'g \<Rightarrow> schedule \<Rightarrow> schedule \<Rightarrow>
     int \<Rightarrow> int \<Rightarrow> int \<Rightarrow> outcome" where
  "main nprocs srand rand m0 g0 sched0 sched1 N M K =
     (if nprocs \<noteq> 2 then Wrong_size
      else if validate_parameters N M K = 0 then Rejected
      else (let m = fst (generate_random_matrix srand rand m0 g0 N M)
            in Searched m (coordinated_search sched0 sched1 m N M K)))"

definition main_1 ::
    "(nat \<Rightarrow> 'g) \<Rightarrow> ('g \<Rightarrow> int \<times> 'g) \<Rightarrow> nat \<Rightarrow> matrix \<Rightarrow> 'g \<Rightarrow> schedule \<Rightarrow>
     int \<Rightarrow> int \<Rightarrow> int \<Rightarrow> outcome" where
  "main_1 srand rand now m0 g0 sched N M K =
     (if validate_parameters N M K = 0 then Rejected
      else (let m = fst (generate_random_matrix_1 srand rand now m0 g0 N M)
            in Searched m (find_best_submatrix_parallel sched m N M K)))"

subsection \<open>Auxiliary notions for the proofs\<close>

text \<open>
  The cells of a window that count, in the words of the specification: the positions
  \<open>(i, j)\<close> inside the K-by-K window at \<open>(start_row, start_col)\<close> whose value is odd
  and not zero. This definition is not taken from the code; the code is compared
  with it.
\<close>

definition qualifying_cells :: "matrix \<Rightarrow> int \<Rightarrow> int \<Rightarrow> int \<Rightarrow> (int \<times> int) set" where
  "qualifying_cells m start_row start_col K =
     {(i, j). start_row \<le> i \<and> i < start_row + K \<and> start_col \<le> j \<and> j < start_col + K
              \<and> odd (cell m i j) \<and> cell m i j \<noteq> 0}"

text \<open>The positions the loops of \<open>calculate_log_product_submatrix\<close> visit, in order.\<close>

definition window_indices :: "int \<Rightarrow> int \<Rightarrow> int \<Rightarrow> (int \<times> int) list" where
  "window_indices start_row start_col K =
     List.product [start_row .. start_row + K - 1] [start_col .. start_col + K - 1]"

definition rows_of_length :: "matrix \<Rightarrow> nat \<Rightarrow> bool" where
  "rows_of_length m n = (\<forall>i < length m. length (m ! i) = n)"

section \<open>Evaluating the model on concrete inputs\<close>

lemmas eval_defs =
  coordinated_search_def select_better_def rank0_local_result_def rank1_local_result_def
  sent_rows_def find_best_submatrix_parallel_def sequential_def iteration_space_def
  thread_local_best_def loop_body_def is_valid_submatrix_def
  calculate_log_product_submatrix_def window_cells_def cell_def add_cell_def is_odd_def
  signed_modulo_int_def critical_update_def sentinel_def less_double_def upto.simps

lemmas generator_defs =
  generate_random_matrix_def generate_random_matrix_1_def scripted_srand_def fill_matrix_def
  set_row_def fill_row_def set_entry_def draw_entry_def MAX_VALUE_def MIN_VALUE_def
  signed_modulo_int_def

text \<open>The one-thread schedule is a schedule of the nest.\<close>

lemma sequential_valid: "valid_schedule (sequential N M K) N M K"
  by (simp add: valid_schedule_def sequential_def)

section \<open>Parameter validation\<close>

text \<open>
  C9. \<open>validate_parameters\<close> returns 0 exactly when \<open>N \<le> 0\<close> or \<open>M \<le> 0\<close> or
  \<open>K \<le> 0\<close>, or \<open>K > N\<close> or \<open>K > M\<close>, or \<open>N > 1000\<close> or \<open>M > 1000\<close>, and 1
  otherwise. \<open>main\<close> of \<open>matrix_solver.c\<close> ends with \<open>Wrong_size\<close> exactly when the
  process count is not 2, and with \<open>Rejected\<close> exactly when the count is 2 and
  \<open>validate_parameters\<close> returned 0; \<open>main\<close> of \<open>matrix_solver_1.c\<close> ends with
  \<open>Rejected\<close> exactly when \<open>validate_parameters\<close> returned 0. Neither of the two
  outcomes holds a matrix or a search result: the run stopped before both.
\<close>

theorem validate_parameters_rejects:
  "validate_parameters N M K =
     (if N \<le> 0 \<or> M \<le> 0 \<or> K \<le> 0 \<or> K > N \<or> K > M \<or> N > 1000 \<or> M > 1000 then 0 else 1)
   \<and> (main nprocs srand rand m0 g0 sched0 sched1 N M K = Wrong_size) = (nprocs \<noteq> 2)
   \<and> (main nprocs srand rand m0 g0 sched0 sched1 N M K = Rejected)
       = (nprocs = 2 \<and> validate_parameters N M K = 0)
   \<and> (main_1 srand rand now m0 g0 sched N M K = Rejected) = (validate_parameters N M K = 0)"
  by (simp add: validate_parameters_def MAX_MATRIX_SIZE_def main_def main_1_def Let_def)

section \<open>The search on an empty domain\<close>

lemma product_Nil_right: "List.product xs [] = []"
  by (induction xs) simp_all

lemma iteration_space_empty: "N < K \<or> M < K \<Longrightarrow> iteration_space N M K = []"
  by (auto simp: iteration_space_def product_Nil_right)

lemma thread_local_best_Nil: "thread_local_best m N M K [] = sentinel"
  by (simp add: thread_local_best_def)

lemma critical_update_sentinels:
  "\<forall>l \<in> set ls. l = sentinel \<Longrightarrow> foldl critical_update sentinel ls = sentinel"
  by (induction ls) (simp_all add: critical_update_def)

text \<open>
  C8. If the matrix has fewer than \<open>K\<close> rows or fewer than \<open>K\<close> columns, the loop
  nest of \<open>find_best_submatrix_parallel\<close> has no iteration, and under every schedule
  of the (empty) nest the function returns \<open>{-1, -1, -INFINITY}\<close>.
\<close>

theorem empty_search_domain:
  assumes "N < K \<or> M < K" and "valid_schedule sched N M K"
  shows "iteration_space N M K = [] \<and> find_best_submatrix_parallel sched m N M K = sentinel"
proof -
  have e: "iteration_space N M K = []"
    using assms(1) by (rule iteration_space_empty)
  with assms(2) have "concat sched = []"
    by (simp add: valid_schedule_def)
  then have "\<forall>its \<in> set sched. its = []"
    by simp
  then have "\<forall>l \<in> set (map (thread_local_best m N M K) sched). l = sentinel"
    by (auto simp: thread_local_best_Nil)
  then have "find_best_submatrix_parallel sched m N M K = sentinel"
    unfolding find_best_submatrix_parallel_def by (rule critical_update_sentinels)
  with e show ?thesis by simp
qed

theorem empty_search_domain_witness:
  "((1::int) < 2 \<or> (5::int) < 2) \<and> valid_schedule [[], []] 1 5 2
   \<and> iteration_space 1 5 2 = []
   \<and> find_best_submatrix_parallel [[], []] [[1, 2, 3, 4, 5]] 1 5 2 = sentinel"
proof -
  have h1: "(1::int) < 2 \<or> (5::int) < 2" by simp
  have h2: "valid_schedule [[], []] 1 5 2"
    by (simp add: valid_schedule_def iteration_space_def)
  show ?thesis
    using h1 h2 empty_search_domain [OF h1 h2, of "[[1, 2, 3, 4, 5]]"] by simp
qed

section \<open>The merge of the two ranks' results\<close>

text \<open>
  C5 as stated fails: rank 0 has its own \<open>local_result\<close> first and
  receives \<open>other_result\<close> afterwards, and on equal scores it keeps \<open>other_result\<close>.
  On the matrix with rows \<open>[3]\<close> and \<open>[-3]\<close>, \<open>K = 1\<close>, both ranks score \<open>ln 3\<close>
  and the final result is not the result of rank 0.
\<close>

theorem coordinator_tie_counterexample:
  "max_log_product (rank0_local_result (sequential 1 1 1) [[3], [- 3]] 2 1 1)
     = max_log_product (rank1_local_result (sequential 1 1 1) [[3], [- 3]] 2 1 1)
   \<and> coordinated_search (sequential 1 1 1) (sequential 1 1 1) [[3], [- 3]] 2 1 1
     \<noteq> rank0_local_result (sequential 1 1 1) [[3], [- 3]] 2 1 1"
  by (simp add: eval_defs)

text \<open>
  C5, amended. In the final merge the result of rank 0 is kept when its score is
  strictly greater than the score of the result received from rank 1; in every other
  case, equal scores included, the result of rank 1 is kept. The choice looks at the
  two scores only, never at coordinates.
\<close>

theorem coordinator_merge_rule:
  "(max_log_product (rank1_local_result sched1 m N M K)
      < max_log_product (rank0_local_result sched0 m N M K)
    \<longrightarrow> coordinated_search sched0 sched1 m N M K = rank0_local_result sched0 m N M K)
   \<and> (max_log_product (rank0_local_result sched0 m N M K)
      \<le> max_log_product (rank1_local_result sched1 m N M K)
    \<longrightarrow> coordinated_search sched0 sched1 m N M K = rank1_local_result sched1 m N M K)"
  by (auto simp: coordinated_search_def select_better_def)

theorem coordinator_merge_rule_witness:
  "max_log_product (rank1_local_result (sequential 1 1 1) [[3], [2]] 2 1 1)
     < max_log_product (rank0_local_result (sequential 1 1 1) [[3], [2]] 2 1 1)
   \<and> coordinated_search (sequential 1 1 1) (sequential 1 1 1) [[3], [2]] 2 1 1
     = \<lparr>row = 0, col = 0, max_log_product = Finite (ln 3)\<rparr>
   \<and> max_log_product (rank0_local_result (sequential 1 1 1) [[3], [- 3]] 2 1 1)
     \<le> max_log_product (rank1_local_result (sequential 1 1 1) [[3], [- 3]] 2 1 1)
   \<and> coordinated_search (sequential 1 1 1) (sequential 1 1 1) [[3], [- 3]] 2 1 1
     = \<lparr>row = 1, col = 0, max_log_product = Finite (ln 3)\<rparr>"
proof -
  have h1: "max_log_product (rank1_local_result (sequential 1 1 1) [[3], [2]] 2 1 1)
     < max_log_product (rank0_local_result (sequential 1 1 1) [[3], [2]] 2 1 1)"
    by (simp add: eval_defs)
  have h2: "max_log_product (rank0_local_result (sequential 1 1 1) [[3], [- 3]] 2 1 1)
     \<le> max_log_product (rank1_local_result (sequential 1 1 1) [[3], [- 3]] 2 1 1)"
    by (simp add: eval_defs)
  have r0: "rank0_local_result (sequential 1 1 1) [[3], [2]] 2 1 1
     = \<lparr>row = 0, col = 0, max_log_product = Finite (ln 3)\<rparr>"
    by (simp add: eval_defs)
  have r1: "rank1_local_result (sequential 1 1 1) [[3], [- 3]] 2 1 1
     = \<lparr>row = 1, col = 0, max_log_product = Finite (ln 3)\<rparr>"
    by (simp add: eval_defs)
  from coordinator_merge_rule [of "sequential 1 1 1" "[[3], [2]]" 2 1 1 "sequential 1 1 1"] h1
  have c1: "coordinated_search (sequential 1 1 1) (sequential 1 1 1) [[3], [2]] 2 1 1
     = rank0_local_result (sequential 1 1 1) [[3], [2]] 2 1 1"
    by blast
  from coordinator_merge_rule [of "sequential 1 1 1" "[[3], [- 3]]" 2 1 1 "sequential 1 1 1"] h2
  have c2: "coordinated_search (sequential 1 1 1) (sequential 1 1 1) [[3], [- 3]] 2 1 1
     = rank1_local_result (sequential 1 1 1) [[3], [- 3]] 2 1 1"
    by blast
  show ?thesis
    using h1 h2 c1 c2 r0 r1 by simp
qed

section \<open>The search over a non-empty domain\<close>

text \<open>
  One step of a thread's scan either leaves \<open>local_best\<close> alone or replaces it by the
  triple of the window it just scored; the score of \<open>local_best\<close> never decreases.
\<close>

lemma loop_body_cases:
  "loop_body m N M K lb ij = lb \<or>
   (is_valid_submatrix (fst ij) (snd ij) K N M \<and>
    loop_body m N M K lb ij =
      \<lparr>row = fst ij, col = snd ij,
       max_log_product = calculate_log_product_submatrix m (fst ij) (snd ij) K\<rparr>)"
  by (simp add: loop_body_def Let_def)

lemma loop_body_mono:
  "max_log_product lb \<le> max_log_product (loop_body m N M K lb ij)"
  by (auto simp: loop_body_def Let_def)

lemma loop_body_covers:
  "is_valid_submatrix (fst ij) (snd ij) K N M \<Longrightarrow>
   calculate_log_product_submatrix m (fst ij) (snd ij) K
     \<le> max_log_product (loop_body m N M K lb ij)"
  by (auto simp: loop_body_def Let_def)

lemma scan_mono:
  "max_log_product lb \<le> max_log_product (foldl (loop_body m N M K) lb its)"
proof (induction its arbitrary: lb)
  case Nil
  show ?case by simp
next
  case (Cons ij its)
  have "max_log_product lb \<le> max_log_product (loop_body m N M K lb ij)"
    by (rule loop_body_mono)
  also have "\<dots> \<le> max_log_product (foldl (loop_body m N M K) (loop_body m N M K lb ij) its)"
    by (rule Cons.IH)
  finally show ?case by simp
qed

lemma scan_covers:
  "ij \<in> set its \<Longrightarrow> is_valid_submatrix (fst ij) (snd ij) K N M \<Longrightarrow>
   calculate_log_product_submatrix m (fst ij) (snd ij) K
     \<le> max_log_product (foldl (loop_body m N M K) lb its)"
proof (induction its arbitrary: lb)
  case Nil
  then show ?case by simp
next
  case (Cons x its)
  show ?case
  proof (cases "ij = x")
    case True
    have "calculate_log_product_submatrix m (fst ij) (snd ij) K
            \<le> max_log_product (loop_body m N M K lb x)"
      using Cons.prems(2) True loop_body_covers by blast
    also have "\<dots> \<le> max_log_product (foldl (loop_body m N M K) (loop_body m N M K lb x) its)"
      by (rule scan_mono)
    finally show ?thesis by simp
  next
    case False
    with Cons.prems(1) have "ij \<in> set its" by simp
    then show ?thesis
      using Cons.IH Cons.prems(2) by simp
  qed
qed

lemma scan_origin:
  "foldl (loop_body m N M K) lb its = lb \<or>
   (\<exists>ij \<in> set its. is_valid_submatrix (fst ij) (snd ij) K N M \<and>
      foldl (loop_body m N M K) lb its =
        \<lparr>row = fst ij, col = snd ij,
         max_log_product = calculate_log_product_submatrix m (fst ij) (snd ij) K\<rparr>)"
proof (induction its arbitrary: lb)
  case Nil
  show ?case by simp
next
  case (Cons x its)
  from Cons.IH [of "loop_body m N M K lb x"] loop_body_cases [of m N M K lb x]
  show ?case by auto
qed

lemma merge_mono:
  "max_log_product b \<le> max_log_product (foldl critical_update b ls)"
proof (induction ls arbitrary: b)
  case Nil
  show ?case by simp
next
  case (Cons l ls)
  have "max_log_product b \<le> max_log_product (critical_update b l)"
    by (auto simp: critical_update_def)
  also have "\<dots> \<le> max_log_product (foldl critical_update (critical_update b l) ls)"
    by (rule Cons.IH)
  finally show ?case by simp
qed

lemma merge_covers:
  "l \<in> set ls \<Longrightarrow> max_log_product l \<le> max_log_product (foldl critical_update b ls)"
proof (induction ls arbitrary: b)
  case Nil
  then show ?case by simp
next
  case (Cons x ls)
  show ?case
  proof (cases "l = x")
    case True
    have "max_log_product l \<le> max_log_product (critical_update b x)"
      using True by (auto simp: critical_update_def)
    also have "\<dots> \<le> max_log_product (foldl critical_update (critical_update b x) ls)"
      by (rule merge_mono)
    finally show ?thesis by simp
  next
    case False
    with Cons.prems have "l \<in> set ls" by simp
    then show ?thesis using Cons.IH by simp
  qed
qed

lemma merge_origin:
  "foldl critical_update b ls = b \<or> foldl critical_update b ls \<in> set ls"
proof (induction ls arbitrary: b)
  case Nil
  show ?case by simp
next
  case (Cons x ls)
  from Cons.IH [of "critical_update b x"] show ?case
    by (auto simp: critical_update_def split: if_splits)
qed

lemma iteration_space_set:
  "(ij \<in> set (iteration_space N M K)) =
   (0 \<le> fst ij \<and> fst ij \<le> N - K \<and> 0 \<le> snd ij \<and> snd ij \<le> M - K)"
  by (cases ij) (auto simp: iteration_space_def)

lemma valid_schedule_set:
  "valid_schedule sched N M K \<Longrightarrow> set (concat sched) = set (iteration_space N M K)"
  unfolding valid_schedule_def by (metis set_mset_mset)

lemma iteration_is_valid:
  "ij \<in> set (iteration_space N M K) \<Longrightarrow> is_valid_submatrix (fst ij) (snd ij) K N M"
  by (simp add: iteration_space_set is_valid_submatrix_def)

text \<open>
  C2. For a matrix of \<open>N\<close> rows and \<open>M\<close> columns and \<open>1 \<le> K \<le> min N M\<close>, under
  every schedule of the OpenMP team, the score \<open>find_best_submatrix_parallel\<close>
  returns is at least the score \<open>calculate_log_product_submatrix\<close> gives to any
  window with top-left corner \<open>(i, j)\<close>, \<open>0 \<le> i \<le> N - K\<close>, \<open>0 \<le> j \<le> M - K\<close>.
\<close>

theorem find_best_optimal:
  assumes "wf_matrix m N M" and "1 \<le> K" and "K \<le> min N M"
    and "valid_schedule sched N M K"
    and "0 \<le> i" and "i \<le> N - K" and "0 \<le> j" and "j \<le> M - K"
  shows "calculate_log_product_submatrix m i j K
           \<le> max_log_product (find_best_submatrix_parallel sched m N M K)"
proof -
  have in_space: "(i, j) \<in> set (iteration_space N M K)"
    using assms(5-8) by (simp add: iteration_space_set)
  then have "(i, j) \<in> set (concat sched)"
    using valid_schedule_set [OF assms(4)] by blast
  then obtain its where its: "its \<in> set sched" "(i, j) \<in> set its"
    by auto
  have "calculate_log_product_submatrix m i j K
          \<le> max_log_product (thread_local_best m N M K its)"
    unfolding thread_local_best_def
    using scan_covers [OF its(2), of K N M m sentinel] iteration_is_valid [OF in_space]
    by simp
  also have "\<dots> \<le> max_log_product (find_best_submatrix_parallel sched m N M K)"
    unfolding find_best_submatrix_parallel_def
    by (rule merge_covers) (use its(1) in simp)
  finally show ?thesis .
qed

theorem find_best_optimal_witness:
  "wf_matrix [[1, 3, 2], [5, 7, 4]] 2 3 \<and> (1::int) \<le> 2 \<and> (2::int) \<le> min 2 3
   \<and> valid_schedule [[(0, 1)], [(0, 0)]] 2 3 2
   \<and> (0::int) \<le> 0 \<and> (0::int) \<le> 2 - 2 \<and> (0::int) \<le> 1 \<and> (1::int) \<le> 3 - 2
   \<and> calculate_log_product_submatrix [[1, 3, 2], [5, 7, 4]] 0 1 2
       \<le> max_log_product
            (find_best_submatrix_parallel [[(0, 1)], [(0, 0)]] [[1, 3, 2], [5, 7, 4]] 2 3 2)"
proof -
  have h1: "wf_matrix [[1, 3, 2], [5, 7, 4]] 2 3"
    by (simp add: wf_matrix_def)
  have h4: "valid_schedule [[(0, 1)], [(0, 0)]] 2 3 2"
    by (simp add: valid_schedule_def iteration_space_def upto.simps)
  from find_best_optimal [OF h1 _ _ h4, of 0 1] h1 h4
  show ?thesis by simp
qed

text \<open>
  C10. Under the same conditions, a result of \<open>find_best_submatrix_parallel\<close> other
  than \<open>{-1, -1, -INFINITY}\<close> has \<open>0 \<le> row \<le> N - K\<close> and \<open>0 \<le> col \<le> M - K\<close>, and
  its score is the score \<open>calculate_log_product_submatrix\<close> gives to the window at
  \<open>(row, col)\<close>.
\<close>

theorem find_best_witness_valid:
  assumes "wf_matrix m N M" and "1 \<le> K" and "K \<le> min N M"
    and "valid_schedule sched N M K"
    and "find_best_submatrix_parallel sched m N M K \<noteq> sentinel"
  shows "0 \<le> row (find_best_submatrix_parallel sched m N M K)
       \<and> row (find_best_submatrix_parallel sched m N M K) \<le> N - K
       \<and> 0 \<le> col (find_best_submatrix_parallel sched m N M K)
       \<and> col (find_best_submatrix_parallel sched m N M K) \<le> M - K
       \<and> max_log_product (find_best_submatrix_parallel sched m N M K)
           = calculate_log_product_submatrix m
               (row (find_best_submatrix_parallel sched m N M K))
               (col (find_best_submatrix_parallel sched m N M K)) K"
proof -
  let ?r = "find_best_submatrix_parallel sched m N M K"
  from merge_origin [of sentinel "map (thread_local_best m N M K) sched"] assms(5)
  have "?r \<in> set (map (thread_local_best m N M K) sched)"
    by (simp add: find_best_submatrix_parallel_def)
  then obtain its where its: "its \<in> set sched" "?r = thread_local_best m N M K its"
    by auto
  from scan_origin [of m N M K sentinel its] its(2) assms(5)
  obtain ij where ij: "ij \<in> set its"
    "?r = \<lparr>row = fst ij, col = snd ij,
           max_log_product = calculate_log_product_submatrix m (fst ij) (snd ij) K\<rparr>"
    by (auto simp: thread_local_best_def)
  from its(1) ij(1) have "ij \<in> set (concat sched)" by auto
  then have "ij \<in> set (iteration_space N M K)"
    using valid_schedule_set [OF assms(4)] by blast
  then have bounds: "0 \<le> fst ij \<and> fst ij \<le> N - K \<and> 0 \<le> snd ij \<and> snd ij \<le> M - K"
    by (simp add: iteration_space_set)
  show ?thesis
    using bounds by (simp add: ij(2))
qed

theorem find_best_witness_valid_witness:
  "wf_matrix [[1, 3, 2], [5, 7, 4]] 2 3 \<and> (1::int) \<le> 2 \<and> (2::int) \<le> min 2 3
   \<and> valid_schedule [[(0, 1)], [(0, 0)]] 2 3 2
   \<and> find_best_submatrix_parallel [[(0, 1)], [(0, 0)]] [[1, 3, 2], [5, 7, 4]] 2 3 2 \<noteq> sentinel
   \<and> row (find_best_submatrix_parallel [[(0, 1)], [(0, 0)]] [[1, 3, 2], [5, 7, 4]] 2 3 2) = 0
   \<and> col (find_best_submatrix_parallel [[(0, 1)], [(0, 0)]] [[1, 3, 2], [5, 7, 4]] 2 3 2) = 0
   \<and> max_log_product
        (find_best_submatrix_parallel [[(0, 1)], [(0, 0)]] [[1, 3, 2], [5, 7, 4]] 2 3 2)
       = calculate_log_product_submatrix [[1, 3, 2], [5, 7, 4]] 0 0 2"
proof -
  have h1: "wf_matrix [[1, 3, 2], [5, 7, 4]] 2 3"
    by (simp add: wf_matrix_def)
  have h4: "valid_schedule [[(0, 1)], [(0, 0)]] 2 3 2"
    by (simp add: valid_schedule_def iteration_space_def upto.simps)
  have r: "find_best_submatrix_parallel [[(0, 1)], [(0, 0)]] [[1, 3, 2], [5, 7, 4]] 2 3 2
      = \<lparr>row = 0, col = 0, max_log_product = Finite (ln 3 + ln 5 + ln 7)\<rparr>"
    by (simp add: eval_defs)
  have h5: "find_best_submatrix_parallel [[(0, 1)], [(0, 0)]] [[1, 3, 2], [5, 7, 4]] 2 3 2
      \<noteq> sentinel"
    by (simp add: r sentinel_def)
  from find_best_witness_valid [OF h1 _ _ h4 h5] h1 h4 h5
  show ?thesis by (simp add: r)
qed

section \<open>The score of a window\<close>

text \<open>The test \<open>is_odd(v) && v != 0\<close> holds exactly for the odd values.\<close>

lemma is_odd_iff: "(is_odd v \<noteq> 0 \<and> v \<noteq> 0) = odd v"
proof -
  have a: "\<bar>v\<bar> smod 2 = \<bar>v\<bar> mod 2"
    by (rule smod_mod_positive) simp_all
  have b: "(\<bar>v\<bar> mod 2 = 1) = odd \<bar>v\<bar>"
    by (rule odd_iff_mod_2_eq_one [symmetric])
  have c: "odd \<bar>v\<bar> = odd v"
    by simp
  have "(is_odd v \<noteq> 0) = (\<bar>v\<bar> smod 2 = 1)"
    by (simp add: is_odd_def)
  then have "(is_odd v \<noteq> 0) = odd v"
    by (simp only: a b c)
  moreover have "odd v \<Longrightarrow> v \<noteq> 0"
    by auto
  ultimately show ?thesis by blast
qed

lemma add_cell_odd:
  "add_cell acc v = (if odd v then (fst acc + ln (real_of_int \<bar>v\<bar>), snd acc + 1) else acc)"
  using is_odd_iff [of v] by (simp add: add_cell_def)

lemma foldl_add_cell:
  "foldl add_cell acc vs =
     (fst acc + sum_list (map (\<lambda>v. ln (real_of_int \<bar>v\<bar>)) (filter odd vs)),
      snd acc + int (length (filter odd vs)))"
proof (induction vs arbitrary: acc)
  case Nil
  show ?case by simp
next
  case (Cons v vs)
  have "foldl add_cell acc (v # vs) = foldl add_cell (add_cell acc v) vs"
    by simp
  also have "\<dots> = (fst (add_cell acc v)
                      + sum_list (map (\<lambda>v. ln (real_of_int \<bar>v\<bar>)) (filter odd vs)),
                    snd (add_cell acc v) + int (length (filter odd vs)))"
    by (rule Cons.IH)
  also have "\<dots> = (fst acc + sum_list (map (\<lambda>v. ln (real_of_int \<bar>v\<bar>)) (filter odd (v # vs))),
                    snd acc + int (length (filter odd (v # vs))))"
    by (simp add: add_cell_odd)
  finally show ?case .
qed

lemma window_cells_indices:
  "window_cells m r c K = map (\<lambda>(i, j). cell m i j) (window_indices r c K)"
  by (simp add: window_cells_def window_indices_def product_concat_map map_concat o_def)

lemma distinct_window_indices: "distinct (window_indices r c K)"
  by (simp add: window_indices_def distinct_product)

lemma qualifying_cells_filter:
  "qualifying_cells m r c K =
     set (filter (\<lambda>(i, j). odd (cell m i j)) (window_indices r c K))"
  by (auto simp: qualifying_cells_def window_indices_def)

text \<open>
  C3. For a window inside an \<open>N\<close>-by-\<open>M\<close> matrix, \<open>calculate_log_product_submatrix\<close>
  returns the sum of \<open>ln |v|\<close> over exactly the cells of the window whose value is odd
  and not zero, and minus infinity when the window has no such cell. A cell holding 0
  is never counted: the window with rows \<open>[0, -3]\<close> and \<open>[0, 0]\<close> scores \<open>ln 3\<close>.
  (Doubles are read as reals, see the modelling decisions.)
\<close>

theorem calculate_log_product_submatrix_sum:
  assumes "wf_matrix m N M" and "0 \<le> start_row" and "0 \<le> start_col"
    and "is_valid_submatrix start_row start_col K N M"
  shows "calculate_log_product_submatrix m start_row start_col K =
           (if qualifying_cells m start_row start_col K = {} then MinusInfinity
            else Finite (\<Sum>(i, j) \<in> qualifying_cells m start_row start_col K.
                           ln (real_of_int \<bar>cell m i j\<bar>)))
         \<and> calculate_log_product_submatrix [[0, - 3], [0, 0]] 0 0 2 = Finite (ln 3)"
proof -
  let ?P = "\<lambda>(i, j). odd (cell m i j)"
  let ?q = "filter ?P (window_indices start_row start_col K)"
  have odd_cells: "filter odd (window_cells m start_row start_col K)
                     = map (\<lambda>(i, j). cell m i j) ?q"
    by (simp add: window_cells_indices filter_map o_def case_prod_unfold)
  have dq: "distinct ?q"
    by (simp add: distinct_window_indices)
  have total: "sum_list (map (\<lambda>v. ln (real_of_int \<bar>v\<bar>))
                     (filter odd (window_cells m start_row start_col K)))
               = (\<Sum>(i, j) \<in> set ?q. ln (real_of_int \<bar>cell m i j\<bar>))"
    unfolding odd_cells
    using sum_list_distinct_conv_sum_set [OF dq, of "\<lambda>(i, j). ln (real_of_int \<bar>cell m i j\<bar>)"]
    by (simp add: o_def case_prod_unfold)
  have count: "(0 < int (length (filter odd (window_cells m start_row start_col K))))
               = (?q \<noteq> [])"
    unfolding odd_cells by simp
  have general: "calculate_log_product_submatrix m start_row start_col K =
           (if ?q = [] then MinusInfinity
            else Finite (\<Sum>(i, j) \<in> set ?q. ln (real_of_int \<bar>cell m i j\<bar>)))"
    using count total
    by (simp add: calculate_log_product_submatrix_def foldl_add_cell Let_def)
  have empty: "(qualifying_cells m start_row start_col K = {}) = (?q = [])"
    unfolding qualifying_cells_filter by (rule set_empty)
  have example: "calculate_log_product_submatrix [[0, - 3], [0, 0]] 0 0 2 = Finite (ln 3)"
    by (simp add: eval_defs)
  show ?thesis
    unfolding empty using general example
    by (simp only: qualifying_cells_filter)
qed

theorem calculate_log_product_submatrix_sum_witness:
  "wf_matrix [[1, 3, 2], [5, 7, 4]] 2 3 \<and> (0::int) \<le> 0 \<and> (0::int) \<le> 1
   \<and> is_valid_submatrix 0 1 2 2 3
   \<and> qualifying_cells [[1, 3, 2], [5, 7, 4]] 0 1 2 \<noteq> {}
   \<and> (\<Sum>(i, j) \<in> qualifying_cells [[1, 3, 2], [5, 7, 4]] 0 1 2.
         ln (real_of_int \<bar>cell [[1, 3, 2], [5, 7, 4]] i j\<bar>)) = ln 3 + ln 7"
proof -
  have h1: "wf_matrix [[1, 3, 2], [5, 7, 4]] 2 3"
    by (simp add: wf_matrix_def)
  have h4: "is_valid_submatrix 0 1 2 2 3"
    by (simp add: is_valid_submatrix_def)
  have e: "calculate_log_product_submatrix [[1, 3, 2], [5, 7, 4]] 0 1 2 = Finite (ln 3 + ln 7)"
    by (simp add: eval_defs)
  from calculate_log_product_submatrix_sum [OF h1 _ _ h4] e h1 h4
  show ?thesis
    by (simp split: if_splits)
qed

section \<open>Matrices without odd entries\<close>

text \<open>
  The local search does return \<open>{-1, -1, -INFINITY}\<close> on a matrix whose entries are all
  even (zero included), under every schedule, also when it is given only the first
  \<open>N'\<close> rows of the matrix as rank 0 is.
\<close>

lemma all_even_window:
  assumes "wf_matrix m N M" and "\<forall>r \<in> set m. \<forall>v \<in> set r. even v"
    and "0 \<le> i" and "0 \<le> j" and "i + K \<le> N" and "j + K \<le> M"
  shows "calculate_log_product_submatrix m i j K = MinusInfinity"
proof -
  have "even (cell m a b)" if "(a, b) \<in> set (window_indices i j K)" for a b
  proof -
    from that assms(3-6) have ab: "0 \<le> a" "a < N" "0 \<le> b" "b < M"
      by (auto simp: window_indices_def)
    from ab(1,2) assms(1) have a: "nat a < length m"
      by (auto simp: wf_matrix_def)
    then have row: "m ! nat a \<in> set m"
      by simp
    with assms(1) have "int (length (m ! nat a)) = M"
      by (simp add: wf_matrix_def list_all_iff)
    with ab(3,4) have "nat b < length (m ! nat a)"
      by auto
    then have "m ! nat a ! nat b \<in> set (m ! nat a)"
      by simp
    with row assms(2) show ?thesis
      unfolding cell_def by blast
  qed
  then have "filter odd (window_cells m i j K) = []"
    by (auto simp: window_cells_indices filter_empty_conv)
  then show ?thesis
    by (simp add: calculate_log_product_submatrix_def foldl_add_cell)
qed

lemma all_even_scan:
  assumes "wf_matrix m N M" and "\<forall>r \<in> set m. \<forall>v \<in> set r. even v" and "N' \<le> N"
    and "set its \<subseteq> set (iteration_space N' M K)"
  shows "foldl (loop_body m N' M K) lb its = lb"
  using assms(4)
proof (induction its)
  case Nil
  show ?case by simp
next
  case (Cons ij its)
  then have "ij \<in> set (iteration_space N' M K)"
    by simp
  then have "0 \<le> fst ij" "0 \<le> snd ij" "fst ij + K \<le> N" "snd ij + K \<le> M"
    using assms(3) by (simp_all add: iteration_space_set)
  then have "calculate_log_product_submatrix m (fst ij) (snd ij) K = MinusInfinity"
    using all_even_window [OF assms(1,2)] by blast
  then have "loop_body m N' M K lb ij = lb"
    by (simp add: loop_body_def Let_def less_double_def)
  with Cons show ?case by simp
qed

lemma all_even_local_sentinel:
  assumes "wf_matrix m N M" and "\<forall>r \<in> set m. \<forall>v \<in> set r. even v" and "N' \<le> N"
    and "valid_schedule sched N' M K"
  shows "find_best_submatrix_parallel sched m N' M K = sentinel"
proof -
  have "thread_local_best m N' M K its = sentinel" if "its \<in> set sched" for its
  proof -
    from that have "set its \<subseteq> set (concat sched)"
      by auto
    then have "set its \<subseteq> set (iteration_space N' M K)"
      using valid_schedule_set [OF assms(4)] by simp
    then show ?thesis
      unfolding thread_local_best_def by (rule all_even_scan [OF assms(1,2,3)])
  qed
  then have "\<forall>l \<in> set (map (thread_local_best m N' M K) sched). l = sentinel"
    by auto
  then show ?thesis
    unfolding find_best_submatrix_parallel_def by (rule critical_update_sentinels)
qed

text \<open>
  C4 does not hold for the two-rank search. Rank 1 adds \<open>half\<close> to the row of its
  result also when that result is \<open>{-1, -1, -INFINITY}\<close>, and on equal scores rank 0
  keeps the result of rank 1. For \<open>N = 2\<close>, \<open>M = 1\<close>, \<open>K = 1\<close> and the all-even matrix
  with rows \<open>[2]\<close> and \<open>[4]\<close> the final result is \<open>{0, -1, -INFINITY}\<close>, whose row is not
  \<open>-1\<close>.
\<close>

theorem coordinated_sentinel_row_shifted:
  "validate_parameters 2 1 1 = 1
   \<and> coordinated_search (sequential 1 1 1) (sequential 1 1 1) [[2], [4]] 2 1 1
      = \<lparr>row = 0, col = - 1, max_log_product = MinusInfinity\<rparr>
   \<and> coordinated_search (sequential 1 1 1) (sequential 1 1 1) [[2], [4]] 2 1 1 \<noteq> sentinel"
  by (simp add: eval_defs validate_parameters_def MAX_MATRIX_SIZE_def)

section \<open>Splitting the rows between the two ranks\<close>

text \<open>
  C1 does not hold for the code. No rank scores a window that has rows on both sides
  of row \<open>half\<close>. For \<open>N = 4\<close>, \<open>M = 2\<close>, \<open>K = 2\<close> and the matrix with rows \<open>[2, 2]\<close>,
  \<open>[3, 3]\<close>, \<open>[3, 3]\<close>, \<open>[2, 2]\<close> the best window is the one at row 1, with score
  \<open>4 ln 3\<close>; the two ranks see the windows at rows 0 and 2 only and the merged score is
  \<open>2 ln 3\<close>. For \<open>N = M = K = 2\<close> neither block has \<open>K\<close> rows: on the matrix with rows
  \<open>[1, 3]\<close>, \<open>[5, 7]\<close> the merged score is minus infinity and the score of the whole
  matrix is \<open>ln 3 + ln 5 + ln 7\<close>.
\<close>

theorem partition_misses_boundary_windows:
  "validate_parameters 4 2 2 = 1
   \<and> max_log_product (coordinated_search (sequential 2 2 2) (sequential 2 2 2)
        [[2, 2], [3, 3], [3, 3], [2, 2]] 4 2 2) = Finite (ln 3 + ln 3)
   \<and> max_log_product (find_best_submatrix_parallel (sequential 4 2 2)
        [[2, 2], [3, 3], [3, 3], [2, 2]] 4 2 2) = Finite (ln 3 + ln 3 + ln 3 + ln 3)
   \<and> Finite (ln 3 + ln 3) < Finite (ln 3 + ln 3 + ln 3 + ln 3)
   \<and> validate_parameters 2 2 2 = 1
   \<and> max_log_product (coordinated_search (sequential 1 2 2) (sequential 1 2 2)
        [[1, 3], [5, 7]] 2 2 2) = MinusInfinity
   \<and> max_log_product (find_best_submatrix_parallel (sequential 2 2 2)
        [[1, 3], [5, 7]] 2 2 2) = Finite (ln 3 + ln 5 + ln 7)"
  by (simp add: eval_defs validate_parameters_def MAX_MATRIX_SIZE_def)

section \<open>The generator\<close>

text \<open>
  Filling a row writes every one of its \<open>M\<close> entries, so what the row held before and
  what the matrix held before do not show in the result.
\<close>

lemma set_entry_sel:
  "fst (set_entry rand rg j) = (fst rg)[j := fst (draw_entry rand (snd rg))]"
  "snd (set_entry rand rg j) = snd (draw_entry rand (snd rg))"
  by (simp_all add: set_entry_def case_prod_unfold Let_def)

lemma fill_row_prefix:
  assumes "length r = length r'" and "k \<le> length r"
  shows "snd (foldl (set_entry rand) (r, g) [0 ..< k])
           = snd (foldl (set_entry rand) (r', g) [0 ..< k])
       \<and> length (fst (foldl (set_entry rand) (r, g) [0 ..< k])) = length r
       \<and> length (fst (foldl (set_entry rand) (r', g) [0 ..< k])) = length r'
       \<and> take k (fst (foldl (set_entry rand) (r, g) [0 ..< k]))
           = take k (fst (foldl (set_entry rand) (r', g) [0 ..< k]))"
  using assms(2)
proof (induction k)
  case 0
  show ?case by simp
next
  case (Suc k)
  let ?a = "foldl (set_entry rand) (r, g) [0 ..< k]"
  let ?b = "foldl (set_entry rand) (r', g) [0 ..< k]"
  from Suc have ih: "snd ?a = snd ?b" "length (fst ?a) = length r"
    "length (fst ?b) = length r'" "take k (fst ?a) = take k (fst ?b)"
    by simp_all
  have k: "k < length (fst ?a)" "k < length (fst ?b)"
    using Suc.prems ih(2,3) assms(1) by simp_all
  have step: "foldl (set_entry rand) (r, g) [0 ..< Suc k] = set_entry rand ?a k"
    "foldl (set_entry rand) (r', g) [0 ..< Suc k] = set_entry rand ?b k"
    by simp_all
  show ?case
    unfolding step set_entry_sel
    using ih k by (simp add: take_Suc_conv_app_nth)
qed

lemma fill_row_length:
  "length (fst (fill_row rand M (r, g))) = length r"
proof -
  have "length (fst (foldl (set_entry rand) (r, g) js)) = length r" for js
  proof (induction js rule: rev_induct)
    case Nil
    show ?case by simp
  next
    case (snoc j js)
    then show ?case by (simp add: set_entry_sel)
  qed
  then show ?thesis by (simp add: fill_row_def)
qed

lemma fill_row_agree:
  assumes "length r = nat M" and "length r' = nat M"
  shows "fill_row rand M (r, g) = fill_row rand M (r', g)"
proof -
  from assms have "length r = length r'" and "nat M \<le> length r"
    by simp_all
  from fill_row_prefix [OF this, of rand g]
  have p: "snd (fill_row rand M (r, g)) = snd (fill_row rand M (r', g))"
    "length (fst (fill_row rand M (r, g))) = length r"
    "length (fst (fill_row rand M (r', g))) = length r'"
    "take (nat M) (fst (fill_row rand M (r, g))) = take (nat M) (fst (fill_row rand M (r', g)))"
    by (simp_all add: fill_row_def)
  have "fst (fill_row rand M (r, g)) = take (nat M) (fst (fill_row rand M (r, g)))"
    using p(2) assms(1) by simp
  also have "\<dots> = take (nat M) (fst (fill_row rand M (r', g)))"
    by (rule p(4))
  also have "\<dots> = fst (fill_row rand M (r', g))"
    using p(3) assms(2) by simp
  finally show ?thesis
    using p(1) by (simp add: prod_eq_iff)
qed

lemma set_row_sel:
  "fst (set_row rand M mg i) = (fst mg)[i := fst (fill_row rand M (fst mg ! i, snd mg))]"
  "snd (set_row rand M mg i) = snd (fill_row rand M (fst mg ! i, snd mg))"
  by (simp_all add: set_row_def case_prod_unfold Let_def)

lemma rows_of_length_update:
  "rows_of_length m n \<Longrightarrow> length r = n \<Longrightarrow> rows_of_length (m[i := r]) n"
  by (cases "i < length m") (auto simp: rows_of_length_def nth_list_update)

lemma fill_matrix_prefix:
  assumes "length m = length m'" and "rows_of_length m (nat M)" and "rows_of_length m' (nat M)"
    and "k \<le> length m"
  shows "snd (foldl (set_row rand M) (m, g) [0 ..< k])
           = snd (foldl (set_row rand M) (m', g) [0 ..< k])
       \<and> length (fst (foldl (set_row rand M) (m, g) [0 ..< k])) = length m
       \<and> length (fst (foldl (set_row rand M) (m', g) [0 ..< k])) = length m'
       \<and> rows_of_length (fst (foldl (set_row rand M) (m, g) [0 ..< k])) (nat M)
       \<and> rows_of_length (fst (foldl (set_row rand M) (m', g) [0 ..< k])) (nat M)
       \<and> take k (fst (foldl (set_row rand M) (m, g) [0 ..< k]))
           = take k (fst (foldl (set_row rand M) (m', g) [0 ..< k]))"
  using assms(4)
proof (induction k)
  case 0
  show ?case using assms(2,3) by simp
next
  case (Suc k)
  let ?a = "foldl (set_row rand M) (m, g) [0 ..< k]"
  let ?b = "foldl (set_row rand M) (m', g) [0 ..< k]"
  from Suc have ih: "snd ?a = snd ?b" "length (fst ?a) = length m"
    "length (fst ?b) = length m'" "rows_of_length (fst ?a) (nat M)"
    "rows_of_length (fst ?b) (nat M)" "take k (fst ?a) = take k (fst ?b)"
    by simp_all
  have k: "k < length (fst ?a)" "k < length (fst ?b)"
    using Suc.prems ih(2,3) assms(1) by simp_all
  have rows: "length (fst ?a ! k) = nat M" "length (fst ?b ! k) = nat M"
    using ih(4,5) k by (simp_all add: rows_of_length_def)
  have same: "fill_row rand M (fst ?a ! k, snd ?a) = fill_row rand M (fst ?b ! k, snd ?b)"
    unfolding ih(1) using rows by (rule fill_row_agree)
  have len: "length (fst (fill_row rand M (fst ?b ! k, snd ?b))) = nat M"
    by (simp add: fill_row_length rows(2))
  have step: "foldl (set_row rand M) (m, g) [0 ..< Suc k] = set_row rand M ?a k"
    "foldl (set_row rand M) (m', g) [0 ..< Suc k] = set_row rand M ?b k"
    by simp_all
  show ?case
    unfolding step set_row_sel same
    using ih k len by (simp add: take_Suc_conv_app_nth rows_of_length_update)
qed

lemma wf_matrix_rows: "wf_matrix m N M \<Longrightarrow> length m = nat N \<and> rows_of_length m (nat M)"
  by (auto simp: wf_matrix_def rows_of_length_def list_all_length)

lemma fill_matrix_agree:
  assumes "wf_matrix m N M" and "wf_matrix m' N M"
  shows "fill_matrix rand N M (m, g) = fill_matrix rand N M (m', g)"
proof -
  from assms have len: "length m = length m'" and r: "rows_of_length m (nat M)"
    and r': "rows_of_length m' (nat M)" and k: "nat N \<le> length m"
    by (simp_all add: wf_matrix_rows)
  from fill_matrix_prefix [OF len r r' k, of rand g]
  have p: "snd (fill_matrix rand N M (m, g)) = snd (fill_matrix rand N M (m', g))"
    "length (fst (fill_matrix rand N M (m, g))) = length m"
    "length (fst (fill_matrix rand N M (m', g))) = length m'"
    "take (nat N) (fst (fill_matrix rand N M (m, g)))
       = take (nat N) (fst (fill_matrix rand N M (m', g)))"
    by (simp_all add: fill_matrix_def)
  have n: "length m = nat N" "length m' = nat N"
    using assms by (simp_all add: wf_matrix_rows)
  have "fst (fill_matrix rand N M (m, g)) = take (nat N) (fst (fill_matrix rand N M (m, g)))"
    using p(2) n(1) by simp
  also have "\<dots> = take (nat N) (fst (fill_matrix rand N M (m', g)))"
    by (rule p(4))
  also have "\<dots> = fst (fill_matrix rand N M (m', g))"
    using p(3) n(2) by simp
  finally show ?thesis
    using p(1) by (simp add: prod_eq_iff)
qed

text \<open>
  C7. For the same seed and the same \<open>N\<close> and \<open>M\<close>, \<open>generate_random_matrix\<close> produces
  the same matrix (and leaves the generator in the same state) on every run: the
  result depends neither on what the allocated memory held nor on the state of the
  C library's generator before the call. In \<open>matrix_solver.c\<close> the seed is always 42;
  in \<open>matrix_solver_1.c\<close> it is the clock value \<open>now\<close>.
\<close>

theorem generate_random_matrix_reproducible:
  assumes "wf_matrix m0 N M" and "wf_matrix m0' N M"
  shows "generate_random_matrix srand rand m0 g0 N M
           = generate_random_matrix srand rand m0' g0' N M
       \<and> generate_random_matrix_1 srand rand now m0 g0 N M
           = generate_random_matrix_1 srand rand now m0' g0' N M"
  by (simp add: generate_random_matrix_def generate_random_matrix_1_def
      fill_matrix_agree [OF assms])

theorem generate_random_matrix_reproducible_witness:
  "wf_matrix [[7, 7], [7, 7]] 2 2 \<and> wf_matrix [[0, 1], [2, 3]] 2 2
   \<and> generate_random_matrix (scripted_srand [200, 0, 5, 10, 1, 11]) scripted_rand
        [[7, 7], [7, 7]] [9] 2 2 = ([[101, - 95], [- 90, - 89]], [])
   \<and> generate_random_matrix (scripted_srand [200, 0, 5, 10, 1, 11]) scripted_rand
        [[0, 1], [2, 3]] [] 2 2 = ([[101, - 95], [- 90, - 89]], [])"
proof -
  have h1: "wf_matrix [[7, 7], [7, 7]] 2 2" and h2: "wf_matrix [[0, 1], [2, 3]] 2 2"
    by (simp_all add: wf_matrix_def)
  have e: "generate_random_matrix (scripted_srand [200, 0, 5, 10, 1, 11]) scripted_rand
        [[7, 7], [7, 7]] [9] 2 2 = ([[101, - 95], [- 90, - 89]], [])"
    by (simp add: generator_defs numeral_2_eq_2)
  from generate_random_matrix_reproducible [OF h1 h2,
      of "scripted_srand [200, 0, 5, 10, 1, 11]" scripted_rand "[9]" "[]" 0] h1 h2 e
  show ?thesis by simp
qed

text \<open>
  With \<open>rand\<close> returning non-negative numbers, as the C library promises, an entry is
  at least \<open>MIN_VALUE\<close> and at most \<open>MAX_VALUE + 1\<close>.
\<close>

lemma draw_entry_range:
  assumes "\<And>g. 0 \<le> fst (rand g)"
  shows "MIN_VALUE \<le> fst (draw_entry rand g) \<and> fst (draw_entry rand g) \<le> MAX_VALUE + 1"
proof -
  have r: "0 \<le> fst (rand g)"
    by (rule assms)
  have "fst (rand g) smod 201 = fst (rand g) mod 201"
    using r by (simp add: smod_mod_positive)
  then have "0 \<le> fst (rand g) smod 201 \<and> fst (rand g) smod 201 \<le> 200"
    by simp
  then show ?thesis
    by (auto simp: draw_entry_def MIN_VALUE_def MAX_VALUE_def case_prod_unfold Let_def)
qed

text \<open>
  C6 does not hold for the code: the bound \<open>MAX_VALUE\<close> is exceeded. When \<open>rand()\<close>
  returns 200 the entry drawn is 100, which is even, and when the next \<open>rand()\<close>
  returns 0 the entry is incremented to 101.
\<close>

theorem generate_exceeds_max_value:
  "fst (generate_random_matrix (scripted_srand [200, 0]) scripted_rand [[0]] [] 1 1) = [[101]]
   \<and> MAX_VALUE < 101"
  by (simp add: generator_defs)

end
